theory Spec2Isabelle
  imports Complex_Main "HOL-Library.Word"
begin

section \<open>The dynamic container \<open>yrgo::container::Vector\<close> (vector.hpp)\<close>

text \<open>
  A \<open>Vector<T>\<close> has two members: the pointer \<open>data_\<close> to a heap block and the element
  count \<open>size_\<close> of type \<open>size_t\<close>; they are the fields \<open>data_m\<close> and \<open>size_m\<close> below.
  Every block is owned by exactly one container, so the pointer is modelled together with
  the block it addresses: \<open>nullptr\<close>, or \<open>Block xs\<close> for a pointer to a live block
  holding the elements \<open>xs\<close>. \<open>size_t\<close> is an unsigned machine integer of some width
  \<open>'w\<close> (16 bits on the ATmega328P, 64 bits where the tests run); its arithmetic wraps
  around.
\<close>

datatype 'a ptr = nullptr | Block "'a list"

record (overloaded) ('a, 'w) Vector =
  data_m :: "'a ptr"
  size_m :: "'w word"

text \<open>The elements a pointer gives access to.\<close>

fun elems :: "'a ptr \<Rightarrow> 'a list" where
  "elems nullptr = []"
| "elems (Block xs) = xs"

text \<open>
  \<open>data_[i]\<close> is unchecked in the source (lines 87-102). Reading or writing through a
  null pointer or beyond the block is undefined behaviour; the model returns \<open>None\<close>
  there.
\<close>

fun index_read :: "'a ptr \<Rightarrow> nat \<Rightarrow> 'a option" where
  "index_read nullptr i = None"
| "index_read (Block xs) i = (if i < length xs then Some (xs ! i) else None)"

fun index_write :: "'a ptr \<Rightarrow> nat \<Rightarrow> 'a \<Rightarrow> 'a ptr option" where
  "index_write nullptr i x = None"
| "index_write (Block xs) i x = (if i < length xs then Some (Block (xs[i := x])) else None)"

subsection \<open>The allocation helpers of container.hpp\<close>

text \<open>
  What the allocator does at one call is an input of the model: \<open>None\<close> when the
  request cannot be met, \<open>Some fill\<close> when it can, \<open>fill i\<close> being the value found in
  the fresh element \<open>i\<close> of the new block.
\<close>

type_synonym 'a alloc = "(nat \<Rightarrow> 'a) option"

text \<open>Fresh memory in which every element reads as zero.\<close>

definition fill_zero :: "nat \<Rightarrow> int" where
  "fill_zero i = 0"

text \<open>
  Modelled from the spec: \<open>detail::Resize<T>(block, new_size)\<close> is declared in
  container.hpp, which is not among the sources. By section 4.1 of the specification the
  reallocation yields a block of exactly \<open>new_size\<close> elements that keeps the values at
  the indices \<open>0..min(old,new)\<close>, and an allocation failure leaves the existing block as
  it is; \<open>Vector::Resize\<close> (line 260) recognises the failure by the null pointer
  returned.
\<close>

definition detail_Resize :: "'a alloc \<Rightarrow> 'a ptr \<Rightarrow> 'w::len word \<Rightarrow> 'a ptr" where
  "detail_Resize a block new_size =
     (case a of
        None \<Rightarrow> nullptr
      | Some fill \<Rightarrow>
          Block (map (\<lambda>i. if i < length (elems block) then elems block ! i else fill i)
                     [0..<unat new_size]))"

text \<open>
  Modelled from the spec: \<open>detail::Delete<T>(block)\<close> is declared in container.hpp as
  well. By section 4.1 \<open>Clear\<close> releases the block unconditionally and is idempotent, and
  by section 3 the pointer of an empty container is null: the helper frees the block and
  resets the pointer it was given.
\<close>

definition detail_Delete :: "'a ptr \<Rightarrow> 'a ptr" where
  "detail_Delete block = nullptr"

subsection \<open>Member functions that touch one container\<close>

text \<open>\<open>Vector(void)\<close>, line 21, with the member initialisers of lines 299-300.\<close>

definition Vector_default :: "('a, 'w::len) Vector" where
  "Vector_default = \<lparr>data_m = nullptr, size_m = 0\<rparr>"

text \<open>\<open>Size\<close>, \<open>Empty\<close> (lines 177-189).\<close>

definition Size :: "('a, 'w::len) Vector \<Rightarrow> 'w word" where
  "Size v = size_m v"

definition Empty :: "('a, 'w::len) Vector \<Rightarrow> bool" where
  "Empty v = (if size_m v = 0 then True else False)"

text \<open>\<open>Clear\<close>, lines 243-246.\<close>

definition Clear :: "('a, 'w::len) Vector \<Rightarrow> ('a, 'w) Vector" where
  "Clear v = v\<lparr>data_m := detail_Delete (data_m v), size_m := 0\<rparr>"

text \<open>\<open>Resize\<close>, lines 258-264. The result is the returned flag and the container.\<close>

definition Resize :: "'a alloc \<Rightarrow> 'w word \<Rightarrow> ('a, 'w::len) Vector \<Rightarrow> bool \<times> ('a, 'w) Vector" where
  "Resize a new_size v =
     (let copy = detail_Resize a (data_m v) new_size in
      if copy = nullptr then (False, v)
      else (True, v\<lparr>data_m := copy, size_m := new_size\<rparr>))"

text \<open>\<open>Vector(const size_t size)\<close>, lines 29-31: the flag of \<open>Resize\<close> is dropped.\<close>

definition Vector_sized :: "'a alloc \<Rightarrow> 'w word \<Rightarrow> ('a, 'w::len) Vector" where
  "Vector_sized a n = snd (Resize a n Vector_default)"

text \<open>
  \<open>PushBack\<close>, lines 274-281. The write \<open>data_[size_ - 1] = value\<close> uses the size that
  \<open>Resize\<close> has just stored.
\<close>

definition PushBack :: "'a alloc \<Rightarrow> 'a \<Rightarrow> ('a, 'w::len) Vector \<Rightarrow> (bool \<times> ('a, 'w) Vector) option" where
  "PushBack a val v =
     (case Resize a (size_m v + 1) v of
        (True, v') \<Rightarrow>
          (case index_write (data_m v') (unat (size_m v' - 1)) val of
             None \<Rightarrow> None
           | Some d \<Rightarrow> Some (True, v'\<lparr>data_m := d\<rparr>))
      | (False, v') \<Rightarrow> Some (False, v'))"

text \<open>\<open>PopBack\<close>, lines 289-296.\<close>

definition PopBack :: "'a alloc \<Rightarrow> ('a, 'w::len) Vector \<Rightarrow> bool \<times> ('a, 'w) Vector" where
  "PopBack a v =
     (if size_m v \<le> 1 then (True, Clear v)
      else Resize a (size_m v - 1) v)"

subsection \<open>Member functions with a second container\<close>

text \<open>
  \<open>Copy\<close>, \<open>Assign\<close>, \<open>AddValues\<close>, the assignment and the append take a reference
  \<open>source\<close> that may denote the container they are called on. The containers therefore
  live in a store indexed by object identity; a member function gets the identities
  \<open>this\<close> and \<open>source\<close> and reads \<open>source\<close> from the current store, as the code
  reads it through the reference.
\<close>

type_synonym ('a, 'w) objects = "nat \<Rightarrow> ('a, 'w) Vector"

text \<open>
  \<open>Assign(const Vector& source, const size_t offset)\<close>, lines 348-352. \<open>Assign_loop\<close>
  is the \<open>for\<close> loop entered with the counter \<open>i\<close>.
\<close>

function Assign_loop ::
  "nat \<Rightarrow> nat \<Rightarrow> 'w::len word \<Rightarrow> 'w word \<Rightarrow> ('a, 'w) objects \<Rightarrow> ('a, 'w) objects option" where
  "Assign_loop this source offset i s =
     (if offset + i < size_m (s this) \<and> i < size_m (s source) then
        (case index_read (data_m (s source)) (unat i) of
           None \<Rightarrow> None
         | Some x \<Rightarrow>
             (case index_write (data_m (s this)) (unat (offset + i)) x of
                None \<Rightarrow> None
              | Some d \<Rightarrow>
                  Assign_loop this source offset (i + 1) (s(this := (s this)\<lparr>data_m := d\<rparr>))))
      else Some s)"
  by pat_completeness auto
termination
proof (relation "measure (\<lambda>(this, source, offset, i, s). unat (size_m (s source)) - unat i)")
  show "wf (measure (\<lambda>(this, source, offset, i, s). unat (size_m (s source)) - unat i))"
    by simp
next
  fix this source :: nat and offset i :: "'a::len word" and s :: "nat \<Rightarrow> ('b, 'a) Vector"
    and x :: 'b and d :: "'b ptr"
  assume g: "offset + i < size_m (s this) \<and> i < size_m (s source)"
  let ?s' = "s(this := (s this)\<lparr>data_m := d\<rparr>)"
  have sz: "size_m (?s' source) = size_m (s source)"
    by simp
  from g have lt: "unat i < unat (size_m (s source))"
    by (simp add: word_less_nat_alt)
  have "unat (size_m (s source)) < 2 ^ LENGTH('a)"
    by (rule unsigned_less)
  with lt have "unat i + 1 < 2 ^ LENGTH('a)"
    by linarith
  then have "unat i + unat (1 :: 'a word) < 2 ^ LENGTH('a)"
    by (simp only: unat_1)
  then have "unat (i + 1) = unat i + unat (1 :: 'a word)"
    by (rule unat_add_lem [THEN iffD1])
  then have inc: "unat (i + 1) = unat i + 1"
    by (simp only: unat_1)
  from lt sz inc show "((this, source, offset, i + 1, ?s'), (this, source, offset, i, s))
      \<in> measure (\<lambda>(this, source, offset, i, s). unat (size_m (s source)) - unat i)"
    by simp
qed

declare Assign_loop.simps [simp del]

definition Assign :: "nat \<Rightarrow> nat \<Rightarrow> 'w::len word \<Rightarrow> ('a, 'w) objects \<Rightarrow> ('a, 'w) objects option" where
  "Assign this source offset s = Assign_loop this source offset 0 s"

text \<open>\<open>Copy\<close>, lines 311-318.\<close>

definition Copy :: "'a alloc \<Rightarrow> nat \<Rightarrow> nat \<Rightarrow> ('a, 'w::len) objects \<Rightarrow> (bool \<times> ('a, 'w) objects) option" where
  "Copy a this source s =
     (case Resize a (size_m (s source)) (s this) of
        (True, v') \<Rightarrow>
          (case Assign this source 0 (s(this := v')) of
             None \<Rightarrow> None
           | Some s' \<Rightarrow> Some (True, s'))
      | (False, v') \<Rightarrow> Some (False, s(this := v')))"

text \<open>\<open>AddValues(const Vector& source)\<close>, lines 381-389.\<close>

definition AddValues :: "'a alloc \<Rightarrow> nat \<Rightarrow> nat \<Rightarrow> ('a, 'w::len) objects \<Rightarrow> (bool \<times> ('a, 'w) objects) option" where
  "AddValues a this source s =
     (let offset = size_m (s this) in
      case Resize a (size_m (s this) + size_m (s source)) (s this) of
        (True, v') \<Rightarrow>
          (case Assign this source offset (s(this := v')) of
             None \<Rightarrow> None
           | Some s' \<Rightarrow> Some (True, s'))
      | (False, v') \<Rightarrow> Some (False, s(this := v')))"

text \<open>
  \<open>operator=(const Vector& source)\<close>, lines 124-127, and
  \<open>operator+=(const Vector& source)\<close>, lines 146-148. Both return \<open>void\<close>: the flag
  of \<open>Copy\<close> and of \<open>AddValues\<close> is dropped.
\<close>

definition op_assign :: "'a alloc \<Rightarrow> nat \<Rightarrow> nat \<Rightarrow> ('a, 'w::len) objects \<Rightarrow> ('a, 'w) objects option" where
  "op_assign a this source s =
     map_option snd (Copy a this source (s(this := Clear (s this))))"

definition op_add_assign :: "'a alloc \<Rightarrow> nat \<Rightarrow> nat \<Rightarrow> ('a, 'w::len) objects \<Rightarrow> ('a, 'w) objects option" where
  "op_add_assign a this source s = map_option snd (AddValues a this source s)"

text \<open>
  \<open>Vector(const Vector& source)\<close>, lines 52-54: \<open>Copy\<close> on the new object \<open>this\<close>,
  whose members start from their initialisers.
\<close>

definition Vector_copy :: "'a alloc \<Rightarrow> nat \<Rightarrow> nat \<Rightarrow> ('a, 'w::len) objects \<Rightarrow> ('a, 'w) objects option" where
  "Vector_copy a this source s =
     map_option snd (Copy a this source (s(this := Vector_default)))"

text \<open>
  \<open>Vector(Vector&& source)\<close>, lines 63-68: the four assignments in the order of the
  source.
\<close>

definition Vector_move :: "nat \<Rightarrow> nat \<Rightarrow> ('a, 'w::len) objects \<Rightarrow> ('a, 'w) objects" where
  "Vector_move this source s =
     (let s1 = s(this := (s this)\<lparr>data_m := data_m (s source)\<rparr>);
          s2 = s1(this := (s1 this)\<lparr>size_m := size_m (s1 source)\<rparr>);
          s3 = s2(source := (s2 source)\<lparr>data_m := nullptr\<rparr>);
          s4 = s3(source := (s3 source)\<lparr>size_m := 0\<rparr>)
      in s4)"

text \<open>
  The representation invariant of section 3 of the specification: the block has as many
  elements as \<open>size_\<close> says, and a null pointer goes with size 0.
\<close>

definition valid :: "('a, 'w::len) Vector \<Rightarrow> bool" where
  "valid v = (length (elems (data_m v)) = unat (size_m v))"

text \<open>A store in which every object is a default-constructed, empty container.\<close>

definition objects_init :: "('a, 'w::len) objects" where
  "objects_init = (\<lambda>_. Vector_default)"

subsection \<open>Sequences of calls\<close>

text \<open>
  \<open>PushBacks cs v\<close> is the calls \<open>v.PushBack(x)\<close> for the entries \<open>(a, x)\<close> of
  \<open>cs\<close> in turn, \<open>a\<close> being what the allocator does at that call; the returned flags
  are ignored. \<open>PopBacks as v\<close> is one call \<open>v.PopBack()\<close> per entry of \<open>as\<close> and
  yields the returned flags with the final container.
\<close>

fun PushBacks :: "('a alloc \<times> 'a) list \<Rightarrow> ('a, 'w::len) Vector \<Rightarrow> ('a, 'w) Vector option" where
  "PushBacks [] v = Some v"
| "PushBacks ((a, x) # cs) v =
     (case PushBack a x v of
        None \<Rightarrow> None
      | Some (r, v') \<Rightarrow> PushBacks cs v')"

fun PopBacks :: "'a alloc list \<Rightarrow> ('a, 'w::len) Vector \<Rightarrow> bool list \<times> ('a, 'w) Vector" where
  "PopBacks [] v = ([], v)"
| "PopBacks (a # as) v =
     (case PopBack a v of
        (r, v') \<Rightarrow> (case PopBacks as v' of (rs, v'') \<Rightarrow> (r # rs, v'')))"

section \<open>The regression model \<open>yrgo::LinReg\<close>\<close>

text \<open>
  Modelled from the spec: the class \<open>LinReg\<close> is declared in lin_reg.hpp, which is not
  among the sources; only its callers are (main.cpp, lin_reg_test.cpp). The model follows
  sections 3 and 4.2 of the specification: the two training containers, given by their
  element sequences, and the parameters bias and weight, both zero at the start. The
  \<open>double\<close> values of the code are real numbers here, so the arithmetic is exact.
\<close>

record LinReg =
  train_in :: "real list"
  train_out :: "real list"
  bias :: real
  weight :: real

text \<open>Modelled from the spec: a default-constructed model has no training data and zero parameters.\<close>

definition LinReg_default :: LinReg where
  "LinReg_default = \<lparr>train_in = [], train_out = [], bias = 0, weight = 0\<rparr>"

text \<open>Modelled from the spec: \<open>LoadTrainingData(inputs, outputs)\<close> stores the two sequences.\<close>

definition LoadTrainingData :: "real list \<Rightarrow> real list \<Rightarrow> LinReg \<Rightarrow> LinReg" where
  "LoadTrainingData inputs outputs m = m\<lparr>train_in := inputs, train_out := outputs\<rparr>"

text \<open>Modelled from the spec: \<open>Predict(x)\<close> returns \<open>bias + weight * x\<close>.\<close>

definition Predict :: "LinReg \<Rightarrow> real \<Rightarrow> real" where
  "Predict m x = bias m + weight m * x"

text \<open>Modelled from the spec: the learning rate is the fixed constant 1 %.\<close>

definition learning_rate :: real where
  "learning_rate = 1 / 100"

text \<open>Modelled from the spec: the mean of the values computed for the training pairs.\<close>

definition mean :: "real list \<Rightarrow> real" where
  "mean zs = sum_list zs / real (length zs)"

text \<open>
  Modelled from the spec: one epoch of \<open>Train\<close>. The predictions for all training pairs
  are computed from the current parameters, then the two mean gradients, then both
  parameters are updated. On an empty training set nothing happens.
\<close>

definition epoch :: "LinReg \<Rightarrow> LinReg" where
  "epoch m =
     (if train_in m = [] then m
      else
        let predictions = map (Predict m) (train_in m);
            errors = map2 (\<lambda>p y. p - y) predictions (train_out m);
            grad_bias = mean errors;
            grad_weight = mean (map2 (\<lambda>e x. e * x) errors (train_in m))
        in m\<lparr>bias := bias m - learning_rate * grad_bias,
              weight := weight m - learning_rate * grad_weight\<rparr>)"

text \<open>Modelled from the spec: \<open>Train(epochs)\<close> runs \<open>epochs\<close> epochs, one after the other.\<close>

fun Train :: "nat \<Rightarrow> LinReg \<Rightarrow> LinReg" where
  "Train 0 m = m"
| "Train (Suc e) m = Train e (epoch m)"

text \<open>
  Modelled from the spec: one iteration of batch gradient descent as a formula on the pair
  (bias, weight). For the \<open>n\<close> training pairs \<open>(xs ! i, ys ! i)\<close> the mean of
  \<open>bias + weight * x\<^sub>i - y\<^sub>i\<close> and the mean of \<open>(bias + weight * x\<^sub>i - y\<^sub>i) * x\<^sub>i\<close> are
  taken over all \<open>i < n\<close>, and each is subtracted with the factor 0.01.
\<close>

definition gradient_step :: "real list \<Rightarrow> real list \<Rightarrow> real \<times> real \<Rightarrow> real \<times> real" where
  "gradient_step xs ys = (\<lambda>(b, w).
     (b - (1 / 100) * ((\<Sum>i < length xs. (b + w * xs ! i - ys ! i)) / real (length xs)),
      w - (1 / 100) * ((\<Sum>i < length xs. (b + w * xs ! i - ys ! i) * xs ! i) / real (length xs))))"

text \<open>
  The construction of the tests (lin_reg_test.cpp, lines 13-49): a model built over the
  inputs \<open>0, 1, 2, 3, 4\<close> and the given outputs (the constructor of \<open>LinReg\<close> that
  takes the training data is a default model with the data loaded) and trained for 1000
  epochs.
\<close>

definition test_inputs :: "real list" where
  "test_inputs = [0, 1, 2, 3, 4]"

definition trained :: "real list \<Rightarrow> LinReg" where
  "trained outputs = Train 1000 (LoadTrainingData test_inputs outputs LinReg_default)"

text \<open>
  An enclosure in integer arithmetic, used to evaluate a trained model. With the inputs of
  the tests and outputs on a line, the distance \<open>(p, q)\<close> of bias and weight from the
  line's coefficients becomes \<open>(0.99 p - 0.02 q, 0.94 q - 0.02 p)\<close> in one epoch.
  \<open>enclose k (P, Q)\<close> follows \<open>k\<close> epochs in units of \<open>1 / unit_scale\<close>, rounding
  \<open>P\<close> down and \<open>Q\<close> up.
\<close>

definition unit_scale :: real where
  "unit_scale = 1000000000"

fun enclose :: "nat \<Rightarrow> int \<times> int \<Rightarrow> int \<times> int" where
  "enclose 0 (P, Q) = (P, Q)"
| "enclose (Suc k) (P, Q) = enclose k ((99 * P - 2 * Q) div 100, - ((2 * P - 94 * Q) div 100))"

section \<open>Properties of the container\<close>

subsection \<open>Reallocation\<close>

lemma detail_Resize_None [simp]: "detail_Resize None block n = nullptr"
  by (simp add: detail_Resize_def)

lemma detail_Resize_Some:
  "detail_Resize (Some fill) block n =
     Block (take (unat n) (elems block) @ map fill [length (elems block)..<unat n])"
proof -
  let ?xs = "elems block" and ?n = "unat n"
  have "map (\<lambda>i. if i < length ?xs then ?xs ! i else fill i) [0..<?n] =
        take ?n ?xs @ map fill [length ?xs..<?n]"
    by (rule nth_equalityI) (auto simp: nth_append)
  then show ?thesis
    by (simp add: detail_Resize_def)
qed

lemma Resize_None [simp]: "Resize None n v = (False, v)"
  by (simp add: Resize_def)

lemma Resize_Some:
  "Resize (Some fill) n v =
     (True, v\<lparr>data_m := Block (take (unat n) (elems (data_m v)) @
                               map fill [length (elems (data_m v))..<unat n]),
              size_m := n\<rparr>)"
  by (simp add: Resize_def detail_Resize_Some Let_def)

lemma length_resized [simp]:
  "length (take k xs @ map fill [length xs..<k]) = k"
  by simp

lemma Clear_eq: "Clear v = v\<lparr>data_m := nullptr, size_m := 0\<rparr>"
  by (simp add: Clear_def detail_Delete_def)

lemma Vector_all_updates [simp]:
  "(v :: ('a, 'w::len) Vector)\<lparr>data_m := d, size_m := n\<rparr> = \<lparr>data_m = d, size_m = n\<rparr>"
  by (cases v) simp

text \<open>
  Claim C2. \<open>Resize(m)\<close> returns false exactly when the allocation fails, and then the
  container, block and size, is what it was. Otherwise it returns true, the size is
  \<open>m\<close>, the block holds exactly \<open>m\<close> elements, and the elements at the indices below
  \<open>min n m\<close> are the ones the block held there before.
\<close>

theorem Resize_exact_or_unchanged:
  "(fst (Resize a m v) = False) = (a = None) \<and>
   (Resize a m v = (False, v) \<or>
    fst (Resize a m v) = True \<and>
    size_m (snd (Resize a m v)) = m \<and>
    length (elems (data_m (snd (Resize a m v)))) = unat m \<and>
    take (min (length (elems (data_m v))) (unat m)) (elems (data_m (snd (Resize a m v)))) =
      take (min (length (elems (data_m v))) (unat m)) (elems (data_m v)))"
proof (cases a)
  case None
  then show ?thesis by simp
next
  case (Some fill)
  then show ?thesis by (simp add: Resize_Some min_def)
qed

subsection \<open>Arithmetic on \<open>size_t\<close>\<close>

lemma unat_dec: "\<not> (n::'w::len word) \<le> 1 \<Longrightarrow> unat (n - 1) = unat n - 1"
proof -
  assume h: "\<not> n \<le> 1"
  have "n \<noteq> 0"
  proof
    assume "n = 0"
    with h show False by simp
  qed
  then show ?thesis
    by (rule unat_minus_one)
qed

lemma unat_add_bounded:
  fixes x y z :: "'w::len word"
  assumes "unat x + unat y \<le> unat z"
  shows "unat (x + y) = unat x + unat y"
proof -
  have "unat z < 2 ^ LENGTH('w)"
    by (rule unsigned_less)
  with assms have "unat x + unat y < 2 ^ LENGTH('w)"
    by linarith
  then show ?thesis
    by (rule unat_add_lem [THEN iffD1])
qed

lemma unat_Suc_bounded:
  fixes i n :: "'w::len word"
  assumes "unat i < unat n"
  shows "unat (i + 1) = Suc (unat i)"
proof -
  have "unat i + unat (1::'w word) \<le> unat n"
    using assms by simp
  then have "unat (i + 1) = unat i + unat (1::'w word)"
    by (rule unat_add_bounded)
  then show ?thesis
    by simp
qed

subsection \<open>\<open>PopBack\<close>\<close>

text \<open>
  Claim C5, as stated, fails: \<open>PopBack\<close> does not always return true. On a container
  of two elements it calls \<open>Resize(1)\<close>; when that reallocation fails it returns false
  and the container keeps both elements.
\<close>

theorem PopBack_may_fail:
  "PopBack None \<lparr>data_m = Block [5::int, 6], size_m = 2::16 word\<rparr> =
     (False, \<lparr>data_m = Block [5, 6], size_m = 2\<rparr>)"
  by (simp add: PopBack_def word_le_nat_alt)

text \<open>
  Claim C5, amended. When the size is at most 1, \<open>PopBack\<close> returns true, releases the
  block and sets the size to 0, without any reallocation. Otherwise it is
  \<open>Resize(size_ - 1)\<close>, and \<open>size_ - 1\<close> does not wrap around: when the reallocation
  fails it returns false and the container is unchanged; when it succeeds on a valid
  container it returns true and the container holds all elements but the last.
\<close>

theorem PopBack_result:
  "(size_m v \<le> 1 \<longrightarrow> PopBack a v = (True, v\<lparr>data_m := nullptr, size_m := 0\<rparr>)) \<and>
   (\<not> size_m v \<le> 1 \<longrightarrow>
      PopBack a v = Resize a (size_m v - 1) v \<and>
      unat (size_m v - 1) = unat (size_m v) - 1 \<and>
      PopBack None v = (False, v) \<and>
      (valid v \<longrightarrow>
         PopBack (Some fill) v =
           (True, v\<lparr>data_m := Block (butlast (elems (data_m v))), size_m := size_m v - 1\<rparr>)))"
proof (cases "size_m v \<le> 1")
  case True
  then show ?thesis
    by (simp add: PopBack_def Clear_eq)
next
  case False
  have u: "unat (size_m v - 1) = unat (size_m v) - 1"
    using False by (rule unat_dec)
  have "valid v \<Longrightarrow> take (unat (size_m v) - 1) (elems (data_m v)) = butlast (elems (data_m v))"
    by (simp add: valid_def butlast_conv_take)
  moreover have "valid v \<Longrightarrow> [length (elems (data_m v))..<unat (size_m v) - 1] = []"
    by (simp add: valid_def)
  ultimately show ?thesis
    using False u by (simp add: PopBack_def Resize_Some)
qed

theorem PopBack_result_witness:
  "PopBack None \<lparr>data_m = Block [5::int], size_m = 1::16 word\<rparr> = (True, \<lparr>data_m = nullptr, size_m = 0\<rparr>) \<and>
   PopBack None \<lparr>data_m = Block [5::int, 6, 7], size_m = 3::16 word\<rparr> =
     (False, \<lparr>data_m = Block [5, 6, 7], size_m = 3\<rparr>) \<and>
   PopBack (Some (\<lambda>_. 0)) \<lparr>data_m = Block [5::int, 6, 7], size_m = 3::16 word\<rparr> =
     (True, \<lparr>data_m = Block [5, 6], size_m = 2\<rparr>)"
proof -
  let ?v1 = "\<lparr>data_m = Block [5::int], size_m = 1::16 word\<rparr>"
  let ?v3 = "\<lparr>data_m = Block [5::int, 6, 7], size_m = 3::16 word\<rparr>"
  have h1: "size_m ?v1 \<le> 1"
    by simp
  have h3: "\<not> size_m ?v3 \<le> 1"
    by (simp add: word_le_nat_alt)
  have h4: "valid ?v3"
    by (simp add: valid_def)
  from h1 PopBack_result [of ?v1 None]
  have "PopBack None ?v1 = (True, ?v1\<lparr>data_m := nullptr, size_m := 0\<rparr>)"
    by blast
  moreover from h3 h4 PopBack_result [of ?v3 None "\<lambda>_. 0"]
  have "PopBack None ?v3 = (False, ?v3) \<and>
    PopBack (Some (\<lambda>_. 0)) ?v3 =
      (True, ?v3\<lparr>data_m := Block (butlast (elems (data_m ?v3))), size_m := size_m ?v3 - 1\<rparr>)"
    by blast
  ultimately show ?thesis
    by simp
qed

text \<open>
  Claim C10. \<open>PopBack\<close> on a container of size 0 returns true and leaves it empty. Any
  size of at most 1 takes the \<open>Clear\<close> branch, and the size after \<open>PopBack\<close> is never
  above the size before: \<open>size_ - 1\<close> is not computed at size 0.
\<close>

theorem PopBack_empty:
  "PopBack a \<lparr>data_m = d, size_m = 0\<rparr> = (True, \<lparr>data_m = nullptr, size_m = 0\<rparr>) \<and>
   (size_m v \<le> 1 \<longrightarrow> PopBack a v = (True, Clear v) \<and> size_m (snd (PopBack a v)) = 0) \<and>
   size_m (snd (PopBack a v)) \<le> size_m v"
proof -
  have "size_m (snd (PopBack a v)) \<le> size_m v"
  proof (cases "size_m v \<le> 1")
    case True
    then show ?thesis by (simp add: PopBack_def Clear_eq)
  next
    case False
    have "unat (size_m v - 1) \<le> unat (size_m v)"
      using unat_dec [OF False] by simp
    then have "size_m v - 1 \<le> size_m v"
      by (simp only: word_le_nat_alt)
    with False show ?thesis
      by (cases a) (simp_all add: PopBack_def Resize_Some)
  qed
  then show ?thesis
    by (simp add: PopBack_def Clear_eq)
qed

theorem PopBack_empty_witness:
  "size_m \<lparr>data_m = (nullptr :: int ptr), size_m = 0::16 word\<rparr> \<le> 1 \<and>
   PopBack None \<lparr>data_m = (nullptr :: int ptr), size_m = 0::16 word\<rparr> =
     (True, Clear \<lparr>data_m = nullptr, size_m = 0\<rparr>)"
proof -
  let ?v1 = "\<lparr>data_m = (nullptr :: int ptr), size_m = 0::16 word\<rparr>"
  have h1: "size_m ?v1 \<le> 1"
    by simp
  with PopBack_empty [of None nullptr ?v1] have "PopBack None ?v1 = (True, Clear ?v1)"
    by blast
  with h1 show ?thesis
    by blast
qed

subsection \<open>Move construction\<close>

text \<open>
  Claim C8. Move-constructing a new container \<open>this\<close> from \<open>source\<close> leaves \<open>source\<close>
  with a null pointer and size 0, so it reports size 0 and holds no elements, and \<open>this\<close>
  holds the block and the size that \<open>source\<close> had: the same values at the same indices.
\<close>

theorem Vector_move_empties_source:
  "this \<noteq> source \<longrightarrow>
     Vector_move this source s = s(this := s source, source := \<lparr>data_m = nullptr, size_m = 0\<rparr>) \<and>
     Size (Vector_move this source s source) = 0 \<and>
     Empty (Vector_move this source s source) \<and>
     elems (data_m (Vector_move this source s source)) = [] \<and>
     elems (data_m (Vector_move this source s this)) = elems (data_m (s source)) \<and>
     Size (Vector_move this source s this) = Size (s source)"
  by (auto simp: Vector_move_def Let_def Size_def Empty_def)

theorem Vector_move_empties_source_witness:
  "(1::nat) \<noteq> 0 \<and>
   Vector_move 1 0 (objects_init(0 := \<lparr>data_m = Block [5::int, 6], size_m = 2::16 word\<rparr>)) =
     objects_init(0 := \<lparr>data_m = nullptr, size_m = 0\<rparr>,
                  1 := \<lparr>data_m = Block [5, 6], size_m = 2\<rparr>)"
  using Vector_move_empties_source
    [of 1 0 "objects_init(0 := \<lparr>data_m = Block [5::int, 6], size_m = 2::16 word\<rparr>)"]
  by (simp add: fun_upd_twist)

subsection \<open>The loop of \<open>Assign\<close>\<close>

lemma Assign_loop_stop:
  "\<not> (offset + i < size_m (s this) \<and> i < size_m (s source)) \<Longrightarrow>
   Assign_loop this source offset i s = Some s"
  by (subst Assign_loop.simps) auto

lemma index_read_elems: "i < length (elems p) \<Longrightarrow> index_read p i = Some (elems p ! i)"
  by (cases p) simp_all

lemma Assign_loop_distinct:
  fixes s :: "('a, 'w::len) objects"
  assumes "this \<noteq> source"
    and "data_m (s this) = Block B"
    and "length B = unat (size_m (s this))"
    and "length (elems (data_m (s source))) = unat (size_m (s source))"
    and "unat (size_m (s this)) = unat offset + unat (size_m (s source))"
    and "unat i \<le> unat (size_m (s source))"
  shows "Assign_loop this source offset i s =
    Some (s(this := (s this)\<lparr>data_m :=
      Block (take (unat offset + unat i) B @ drop (unat i) (elems (data_m (s source))))\<rparr>))"
  using assms
proof (induction k \<equiv> "unat (size_m (s source)) - unat i" arbitrary: i s B)
  case 0
  then have eq: "unat i = unat (size_m (s source))"
    by simp
  then have "\<not> i < size_m (s source)"
    by (simp add: word_less_nat_alt)
  then have "Assign_loop this source offset i s = Some s"
    by (intro Assign_loop_stop) simp
  moreover have "take (unat offset + unat i) B @ drop (unat i) (elems (data_m (s source))) = B"
    using 0 eq by simp
  moreover have "s(this := (s this)\<lparr>data_m := Block B\<rparr>) = s"
    using 0(3) by (metis Vector.surjective Vector.update_convs(1) fun_upd_triv)
  ultimately show ?case
    by simp
next
  case (Suc k)
  let ?ys = "elems (data_m (s source))"
  let ?O = "unat offset" and ?I = "unat i"
  from Suc.hyps(2) have lt: "?I < unat (size_m (s source))"
    by simp
  then have sum_le: "?O + ?I \<le> unat (size_m (s this))"
    using Suc.prems(5) by simp
  have oi: "unat (offset + i) = ?O + ?I"
    using sum_le by (rule unat_add_bounded)
  have i1: "unat (i + 1) = Suc ?I"
    using lt by (rule unat_Suc_bounded)
  have guard: "offset + i < size_m (s this) \<and> i < size_m (s source)"
    using lt oi Suc.prems(5) by (simp add: word_less_nat_alt)
  have rd: "index_read (data_m (s source)) (unat i) = Some (?ys ! ?I)"
    using lt Suc.prems(4) by (simp add: index_read_elems)
  have inB: "?O + ?I < length B"
    using lt Suc.prems(3,5) by simp
  let ?B' = "B[?O + ?I := ?ys ! ?I]"
  let ?s' = "s(this := (s this)\<lparr>data_m := Block ?B'\<rparr>)"
  have wr: "index_write (data_m (s this)) (unat (offset + i)) (?ys ! ?I) = Some (Block ?B')"
    using inB oi Suc.prems(2) by simp
  have unfold: "Assign_loop this source offset i s = Assign_loop this source offset (i + 1) ?s'"
    using guard rd wr by (subst Assign_loop.simps) simp
  have src: "?s' source = s source"
    using Suc.prems(1) by simp
  have IH: "Assign_loop this source offset (i + 1) ?s' =
    Some (?s'(this := (?s' this)\<lparr>data_m :=
      Block (take (?O + unat (i + 1)) ?B' @ drop (unat (i + 1)) (elems (data_m (?s' source))))\<rparr>))"
  proof (rule Suc.hyps(1))
    show "k = unat (size_m (?s' source)) - unat (i + 1)"
      using Suc.hyps(2) i1 src by simp
    show "this \<noteq> source" by (rule Suc.prems(1))
    show "data_m (?s' this) = Block ?B'" by simp
    show "length ?B' = unat (size_m (?s' this))"
      using Suc.prems(3) by simp
    show "length (elems (data_m (?s' source))) = unat (size_m (?s' source))"
      using Suc.prems(4) src by simp
    show "unat (size_m (?s' this)) = ?O + unat (size_m (?s' source))"
      using Suc.prems(5) src by simp
    show "unat (i + 1) \<le> unat (size_m (?s' source))"
      using lt i1 src by simp
  qed
  have lists: "take (?O + Suc ?I) ?B' @ drop (Suc ?I) ?ys = take (?O + ?I) B @ drop ?I ?ys"
  proof -
    have "take (?O + Suc ?I) ?B' = take (?O + ?I) B @ [?ys ! ?I]"
      using inB by (simp add: take_Suc_conv_app_nth)
    moreover have "drop ?I ?ys = ?ys ! ?I # drop (Suc ?I) ?ys"
      using lt Suc.prems(4) by (simp add: Cons_nth_drop_Suc)
    ultimately show ?thesis by simp
  qed
  show ?case
    unfolding unfold IH using lists i1 src by simp
qed

lemma Assign_loop_self:
  fixes s :: "('a, 'w::len) objects"
  assumes "data_m (s this) = Block B"
    and "length B = unat (size_m (s this))"
    and "unat (size_m (s this)) = unat offset + M"
    and "M \<le> unat offset"
    and "unat i \<le> M"
  shows "Assign_loop this this offset i s =
    Some (s(this := (s this)\<lparr>data_m :=
      Block (take (unat offset + unat i) B @ drop (unat i) (take M B))\<rparr>))"
  using assms
proof (induction k \<equiv> "M - unat i" arbitrary: i s B)
  case 0
  then have eq: "unat i = M"
    by simp
  have "unat offset + unat i \<le> unat (size_m (s this))"
    using 0 eq by simp
  then have "unat (offset + i) = unat offset + unat i"
    by (rule unat_add_bounded)
  then have "\<not> offset + i < size_m (s this)"
    using 0 eq by (simp add: word_less_nat_alt)
  then have "Assign_loop this this offset i s = Some s"
    by (intro Assign_loop_stop) simp
  moreover have "take (unat offset + unat i) B @ drop (unat i) (take M B) = B"
    using 0 eq by simp
  moreover have "s(this := (s this)\<lparr>data_m := Block B\<rparr>) = s"
    using 0(2) by (metis Vector.surjective Vector.update_convs(1) fun_upd_triv)
  ultimately show ?case
    by simp
next
  case (Suc k)
  let ?O = "unat offset" and ?I = "unat i"
  from Suc.hyps(2) have lt: "?I < M"
    by simp
  then have sum_le: "?O + ?I \<le> unat (size_m (s this))"
    using Suc.prems(3) by simp
  have oi: "unat (offset + i) = ?O + ?I"
    using sum_le by (rule unat_add_bounded)
  have ilt: "?I < unat (size_m (s this))"
    using lt Suc.prems(3) by simp
  have i1: "unat (i + 1) = Suc ?I"
    using ilt by (rule unat_Suc_bounded)
  have guard: "offset + i < size_m (s this) \<and> i < size_m (s this)"
    using lt oi ilt Suc.prems(3) by (simp add: word_less_nat_alt)
  have rd: "index_read (data_m (s this)) (unat i) = Some (B ! ?I)"
    using ilt Suc.prems(1,2) by simp
  have inB: "?O + ?I < length B"
    using lt Suc.prems(2,3) by simp
  let ?B' = "B[?O + ?I := B ! ?I]"
  let ?s' = "s(this := (s this)\<lparr>data_m := Block ?B'\<rparr>)"
  have wr: "index_write (data_m (s this)) (unat (offset + i)) (B ! ?I) = Some (Block ?B')"
    using inB oi Suc.prems(1) by simp
  have unfold: "Assign_loop this this offset i s = Assign_loop this this offset (i + 1) ?s'"
    using guard rd wr by (subst Assign_loop.simps) simp
  have IH: "Assign_loop this this offset (i + 1) ?s' =
    Some (?s'(this := (?s' this)\<lparr>data_m :=
      Block (take (?O + unat (i + 1)) ?B' @ drop (unat (i + 1)) (take M ?B'))\<rparr>))"
  proof (rule Suc.hyps(1))
    show "k = M - unat (i + 1)"
      using Suc.hyps(2) i1 by simp
    show "data_m (?s' this) = Block ?B'" by simp
    show "length ?B' = unat (size_m (?s' this))"
      using Suc.prems(2) by simp
    show "unat (size_m (?s' this)) = ?O + M"
      using Suc.prems(3) by simp
    show "M \<le> ?O" by (rule Suc.prems(4))
    show "unat (i + 1) \<le> M"
      using lt i1 by simp
  qed
  have keep: "take M ?B' = take M B"
    using Suc.prems(4) by simp
  have lists: "take (?O + Suc ?I) ?B' @ drop (Suc ?I) (take M ?B') =
      take (?O + ?I) B @ drop ?I (take M B)"
  proof -
    have "take (?O + Suc ?I) ?B' = take (?O + ?I) B @ [B ! ?I]"
      using inB by (simp add: take_Suc_conv_app_nth)
    moreover have "?I < length (take M B)"
      using lt inB by simp
    then have "drop ?I (take M B) = take M B ! ?I # drop (Suc ?I) (take M B)"
      by (simp only: Cons_nth_drop_Suc)
    moreover have "take M B ! ?I = B ! ?I"
      using lt by simp
    ultimately show ?thesis
      using keep by simp
  qed
  show ?case
    unfolding unfold IH using lists i1 by simp
qed

lemma Assign_append_distinct:
  fixes s :: "('a, 'w::len) objects" and n :: "'w word"
  assumes ne: "this \<noteq> source"
    and lx: "length xs = unat n"
    and lj: "length junk = unat (size_m (s source))"
    and ly: "length (elems (data_m (s source))) = unat (size_m (s source))"
    and sum: "unat (n + size_m (s source)) = unat n + unat (size_m (s source))"
  shows "Assign this source n (s(this := \<lparr>data_m = Block (xs @ junk), size_m = n + size_m (s source)\<rparr>)) =
    Some (s(this := \<lparr>data_m = Block (xs @ elems (data_m (s source))), size_m = n + size_m (s source)\<rparr>))"
proof -
  let ?s1 = "s(this := \<lparr>data_m = Block (xs @ junk), size_m = n + size_m (s source)\<rparr>)"
  have "Assign_loop this source n 0 ?s1 =
    Some (?s1(this := (?s1 this)\<lparr>data_m :=
      Block (take (unat n + unat (0::'w word)) (xs @ junk) @
             drop (unat (0::'w word)) (elems (data_m (?s1 source))))\<rparr>))"
  proof (rule Assign_loop_distinct)
    show "this \<noteq> source" by (rule ne)
    show "data_m (?s1 this) = Block (xs @ junk)" by simp
    show "length (xs @ junk) = unat (size_m (?s1 this))"
      using lx lj sum by simp
    show "length (elems (data_m (?s1 source))) = unat (size_m (?s1 source))"
      using ne ly by simp
    show "unat (size_m (?s1 this)) = unat n + unat (size_m (?s1 source))"
      using ne sum by simp
    show "unat (0::'w word) \<le> unat (size_m (?s1 source))"
      by simp
  qed
  then show ?thesis
    using ne lx by (simp add: Assign_def)
qed

lemma Assign_append_self:
  fixes s :: "('a, 'w::len) objects" and n :: "'w word"
  assumes lx: "length xs = unat n"
    and lj: "length junk = unat n"
    and sum: "unat (n + n) = unat n + unat n"
  shows "Assign this this n (s(this := \<lparr>data_m = Block (xs @ junk), size_m = n + n\<rparr>)) =
    Some (s(this := \<lparr>data_m = Block (xs @ xs), size_m = n + n\<rparr>))"
proof -
  let ?s1 = "s(this := \<lparr>data_m = Block (xs @ junk), size_m = n + n\<rparr>)"
  have "Assign_loop this this n 0 ?s1 =
    Some (?s1(this := (?s1 this)\<lparr>data_m :=
      Block (take (unat n + unat (0::'w word)) (xs @ junk) @
             drop (unat (0::'w word)) (take (unat n) (xs @ junk)))\<rparr>))"
  proof (rule Assign_loop_self)
    show "data_m (?s1 this) = Block (xs @ junk)" by simp
    show "length (xs @ junk) = unat (size_m (?s1 this))"
      using lx lj sum by simp
    show "unat (size_m (?s1 this)) = unat n + unat n"
      using sum by simp
    show "unat n \<le> unat n" by simp
    show "unat (0::'w word) \<le> unat n" by simp
  qed
  then show ?thesis
    using lx by (simp add: Assign_def)
qed

subsection \<open>Assignment\<close>

text \<open>
  Claim C9. Assigning a container to itself leaves it with size 0 and without elements,
  whatever it held: \<open>Clear\<close> runs first, and \<open>Copy\<close> then reads the size 0 of the
  cleared source. (The pointer is null when the allocation of zero elements fails, and
  addresses an empty block when it succeeds.)
\<close>

theorem self_assignment_empties:
  "op_assign a v v s =
     Some (s(v := \<lparr>data_m = (case a of None \<Rightarrow> nullptr | Some fill \<Rightarrow> Block []), size_m = 0\<rparr>)) \<and>
   map_option (\<lambda>s'. Size (s' v)) (op_assign a v v s) = Some 0 \<and>
   map_option (\<lambda>s'. elems (data_m (s' v))) (op_assign a v v s) = Some []"
proof (cases a)
  case None
  then show ?thesis
    by (simp add: op_assign_def Copy_def Clear_eq Size_def)
next
  case (Some fill)
  let ?s1 = "s(v := \<lparr>data_m = Block [], size_m = 0\<rparr>)"
  have "Assign v v 0 ?s1 = Some ?s1"
    unfolding Assign_def by (rule Assign_loop_stop) simp
  with Some show ?thesis
    by (simp add: op_assign_def Copy_def Clear_eq Resize_Some Size_def)
qed

subsection \<open>Append\<close>

lemma Copy_None: "Copy None this source s = Some (False, s)"
  by (simp add: Copy_def)

lemma AddValues_None: "AddValues None this source s = Some (False, s)"
  by (simp add: AddValues_def)

lemma AddValues_Some:
  fixes s :: "('a, 'w::len) objects"
  assumes v1: "valid (s this)" and v2: "valid (s source)"
    and fit: "unat (size_m (s this)) + unat (size_m (s source)) < 2 ^ LENGTH('w)"
  shows "AddValues (Some fill) this source s =
    Some (True, s(this := \<lparr>data_m = Block (elems (data_m (s this)) @ elems (data_m (s source))),
                            size_m = size_m (s this) + size_m (s source)\<rparr>))"
proof -
  let ?xs = "elems (data_m (s this))" and ?ys = "elems (data_m (s source))"
  let ?n = "size_m (s this)" and ?m = "size_m (s source)"
  let ?junk = "map fill [unat ?n..<unat ?n + unat ?m]"
  have lx: "length ?xs = unat ?n" and ly: "length ?ys = unat ?m"
    using v1 v2 by (simp_all add: valid_def)
  have sum: "unat (?n + ?m) = unat ?n + unat ?m"
    using fit by (rule unat_add_lem [THEN iffD1])
  have rs: "Resize (Some fill) (?n + ?m) (s this) =
      (True, \<lparr>data_m = Block (?xs @ ?junk), size_m = ?n + ?m\<rparr>)"
    using lx sum by (simp add: Resize_Some)
  have loop: "Assign this source ?n (s(this := \<lparr>data_m = Block (?xs @ ?junk), size_m = ?n + ?m\<rparr>)) =
      Some (s(this := \<lparr>data_m = Block (?xs @ ?ys), size_m = ?n + ?m\<rparr>))"
  proof (cases "this = source")
    case False
    then show ?thesis
      using lx ly sum by (intro Assign_append_distinct) simp_all
  next
    case True
    have "Assign this this ?n
        (s(this := \<lparr>data_m = Block (?xs @ map fill [unat ?n..<unat ?n + unat ?n]),
                          size_m = ?n + ?n\<rparr>)) =
      Some (s(this := \<lparr>data_m = Block (?xs @ ?xs), size_m = ?n + ?n\<rparr>))"
      using lx sum True by (intro Assign_append_self) simp_all
    then show ?thesis
      using True by simp
  qed
  show ?thesis
    using rs loop by (simp add: AddValues_def Let_def)
qed

text \<open>
  Claim C6, as stated, fails: when the reallocation fails, \<open>A += B\<close> leaves \<open>A\<close> as it
  was, and its size is not the sum of the two sizes.
\<close>

theorem append_fails_without_memory:
  "op_add_assign None 0 1
       (objects_init(0 := \<lparr>data_m = Block [1::int, 2], size_m = 2::16 word\<rparr>,
                     1 := \<lparr>data_m = Block [3], size_m = 1\<rparr>)) =
     Some (objects_init(0 := \<lparr>data_m = Block [1, 2], size_m = 2\<rparr>,
                        1 := \<lparr>data_m = Block [3], size_m = 1\<rparr>)) \<and>
   Size \<lparr>data_m = Block [1::int, 2], size_m = 2::16 word\<rparr> = 2 \<and>
   Size \<lparr>data_m = Block [1::int, 2], size_m = 2::16 word\<rparr> +
     Size \<lparr>data_m = Block [3::int], size_m = 1::16 word\<rparr> = 3 \<and>
   (2::16 word) \<noteq> 3"
  by (simp add: op_add_assign_def AddValues_def fun_upd_twist Size_def)

text \<open>
  Claim C6, amended. For valid containers \<open>A\<close> and \<open>B\<close> (\<open>B\<close> may be \<open>A\<close> itself) whose
  sizes add up within the range of \<open>size_t\<close>: when the reallocation succeeds, after
  \<open>A += B\<close> the size of \<open>A\<close> is the sum of the two sizes and \<open>A\<close> holds its former
  elements followed by those of \<open>B\<close>, in order; when it fails, nothing changes. The append
  succeeds exactly when the one call \<open>Resize(size_ + source.size_)\<close> for the full new
  length does.
\<close>

theorem append_concatenates:
  fixes s :: "('a, 'w::len) objects"
  assumes "valid (s this)" and "valid (s source)"
    and "unat (size_m (s this)) + unat (size_m (s source)) < 2 ^ LENGTH('w)"
  shows "op_add_assign (Some fill) this source s =
      Some (s(this := \<lparr>data_m = Block (elems (data_m (s this)) @ elems (data_m (s source))),
                        size_m = size_m (s this) + size_m (s source)\<rparr>)) \<and>
    unat (size_m (s this) + size_m (s source)) = unat (size_m (s this)) + unat (size_m (s source)) \<and>
    op_add_assign None this source s = Some s \<and>
    map_option fst (AddValues a this source s) =
      Some (fst (Resize a (size_m (s this) + size_m (s source)) (s this)))"
proof -
  have "map_option fst (AddValues a this source s) =
      Some (fst (Resize a (size_m (s this) + size_m (s source)) (s this)))"
  proof (cases a)
    case None
    then show ?thesis by (simp add: AddValues_None)
  next
    case (Some fill')
    then show ?thesis using assms by (simp add: AddValues_Some Resize_Some)
  qed
  moreover have "unat (size_m (s this) + size_m (s source)) =
      unat (size_m (s this)) + unat (size_m (s source))"
    using assms(3) by (rule unat_add_lem [THEN iffD1])
  ultimately show ?thesis
    using assms by (simp add: op_add_assign_def AddValues_Some AddValues_None)
qed

theorem append_concatenates_witness:
  "valid \<lparr>data_m = Block [1::int, 2], size_m = 2::16 word\<rparr> \<and>
   valid \<lparr>data_m = Block [3::int], size_m = 1::16 word\<rparr> \<and>
   unat (2::16 word) + unat (1::16 word) < 2 ^ LENGTH(16) \<and>
   op_add_assign (Some (\<lambda>_. 0)) 0 1
       (objects_init(0 := \<lparr>data_m = Block [1::int, 2], size_m = 2::16 word\<rparr>,
                     1 := \<lparr>data_m = Block [3], size_m = 1\<rparr>)) =
     Some (objects_init(0 := \<lparr>data_m = Block [1, 2, 3], size_m = 3\<rparr>,
                        1 := \<lparr>data_m = Block [3], size_m = 1\<rparr>)) \<and>
   op_add_assign (Some (\<lambda>_. 0)) 0 0
       (objects_init(0 := \<lparr>data_m = Block [1::int, 2], size_m = 2::16 word\<rparr>)) =
     Some (objects_init(0 := \<lparr>data_m = Block [1, 2, 1, 2], size_m = 4\<rparr>))"
proof -
  let ?a = "\<lparr>data_m = Block [1::int, 2], size_m = 2::16 word\<rparr>"
  let ?b = "\<lparr>data_m = Block [3::int], size_m = 1::16 word\<rparr>"
  let ?s = "objects_init(0 := ?a, 1 := ?b)"
  let ?t = "objects_init(0 := ?a)"
  have va: "valid ?a" and vb: "valid ?b"
    by (simp_all add: valid_def)
  have fit: "unat (2::16 word) + unat (1::16 word) < 2 ^ LENGTH(16)"
    and fit': "unat (2::16 word) + unat (2::16 word) < 2 ^ LENGTH(16)"
    by simp_all
  have "op_add_assign (Some (\<lambda>_. 0)) 0 1 ?s =
      Some (?s(0 := \<lparr>data_m = Block (elems (data_m (?s 0)) @ elems (data_m (?s 1))),
                      size_m = size_m (?s 0) + size_m (?s 1)\<rparr>))"
    using va vb fit append_concatenates [of ?s 0 1 "\<lambda>_. 0" None] by simp
  moreover have "op_add_assign (Some (\<lambda>_. 0)) 0 0 ?t =
      Some (?t(0 := \<lparr>data_m = Block (elems (data_m (?t 0)) @ elems (data_m (?t 0))),
                      size_m = size_m (?t 0) + size_m (?t 0)\<rparr>))"
    using va fit' append_concatenates [of ?t 0 0 "\<lambda>_. 0" None] by simp
  ultimately show ?thesis
    using va vb fit by (simp add: fun_upd_twist)
qed

subsection \<open>\<open>PushBack\<close> and \<open>PopBack\<close> in sequence\<close>

lemma PushBack_None: "PushBack None x v = Some (False, v)"
  by (simp add: PushBack_def)

lemma PushBack_Some:
  fixes v :: "('a, 'w::len) Vector"
  assumes "unat (size_m v) + 1 < 2 ^ LENGTH('w)"
  shows "PushBack (Some fill) x v =
    Some (True, \<lparr>data_m = Block ((take (unat (size_m v) + 1) (elems (data_m v)) @
                                   map fill [length (elems (data_m v))..<unat (size_m v) + 1])
                                  [unat (size_m v) := x]),
                 size_m = size_m v + 1\<rparr>)"
proof -
  have "unat (size_m v) + unat (1::'w word) < 2 ^ LENGTH('w)"
    using assms by simp
  then have "unat (size_m v + 1) = unat (size_m v) + unat (1::'w word)"
    by (rule unat_add_lem [THEN iffD1])
  then have u: "unat (size_m v + 1) = unat (size_m v) + 1"
    by simp
  show ?thesis
    by (simp add: PushBack_def Resize_Some u)
qed

lemma PushBack_appends:
  fixes v :: "('a, 'w::len) Vector"
  assumes "valid v" and "unat (size_m v) + 1 < 2 ^ LENGTH('w)"
  shows "PushBack (Some fill) x v =
    Some (True, \<lparr>data_m = Block (elems (data_m v) @ [x]), size_m = size_m v + 1\<rparr>)"
proof -
  have len: "length (elems (data_m v)) = unat (size_m v)"
    using assms(1) by (simp add: valid_def)
  have "(elems (data_m v) @ [fill (unat (size_m v))])[length (elems (data_m v)) := x] =
      elems (data_m v) @ [x]"
    by (simp only: list_update_length)
  with len show ?thesis
    by (simp add: PushBack_Some [OF assms(2)] upt_rec [of "unat (size_m v)"])
qed

lemma PushBack_total:
  fixes v :: "('a, 'w::len) Vector"
  assumes "unat (size_m v) + 1 < 2 ^ LENGTH('w)"
  shows "\<exists>p. PushBack a x v = Some p \<and> unat (size_m (snd p)) \<le> unat (size_m v) + 1"
proof (cases a)
  case None
  then show ?thesis by (simp add: PushBack_None)
next
  case (Some fill)
  have "unat (size_m v) + unat (1::'w word) < 2 ^ LENGTH('w)"
    using assms by simp
  then have "unat (size_m v + 1) = unat (size_m v) + unat (1::'w word)"
    by (rule unat_add_lem [THEN iffD1])
  then show ?thesis
    using Some assms by (simp add: PushBack_Some)
qed

lemma PushBacks_total:
  fixes v :: "('a, 'w::len) Vector"
  shows "unat (size_m v) + length cs < 2 ^ LENGTH('w) \<Longrightarrow>
    \<exists>v'. PushBacks cs v = Some v' \<and> unat (size_m v') \<le> unat (size_m v) + length cs"
proof (induction cs arbitrary: v)
  case Nil
  then show ?case by simp
next
  case (Cons c cs)
  obtain a x where c: "c = (a, x)"
    by (cases c)
  from Cons.prems have "unat (size_m v) + 1 < 2 ^ LENGTH('w)"
    by simp
  from PushBack_total [OF this, of a x]
  obtain r v1 where p: "PushBack a x v = Some (r, v1)"
    and le: "unat (size_m v1) \<le> unat (size_m v) + 1"
    by auto
  from le Cons.prems have "unat (size_m v1) + length cs < 2 ^ LENGTH('w)"
    by simp
  from Cons.IH [OF this]
  obtain v' where "PushBacks cs v1 = Some v'"
    and "unat (size_m v') \<le> unat (size_m v1) + length cs"
    by auto
  with le p c show ?case
    by simp
qed

lemma PopBack_step:
  fixes v :: "('a, 'w::len) Vector"
  assumes "fst (PopBack a v)"
  shows "(size_m v \<le> 1 \<and> snd (PopBack a v) = Vector_default) \<or>
         (\<not> size_m v \<le> 1 \<and> unat (size_m (snd (PopBack a v))) = unat (size_m v) - 1)"
proof (cases "size_m v \<le> 1")
  case True
  then show ?thesis
    by (simp add: PopBack_def Clear_eq Vector_default_def)
next
  case False
  with assms obtain fill where "a = Some fill"
    by (cases a) (simp_all add: PopBack_def)
  with False show ?thesis
    by (simp add: PopBack_def Resize_Some unat_dec)
qed

lemma PopBacks_empty:
  fixes v :: "('a, 'w::len) Vector"
  shows "list_all (\<lambda>r. r) (fst (PopBacks as v)) \<Longrightarrow> unat (size_m v) \<le> length as \<Longrightarrow>
    (as = [] \<longrightarrow> v = Vector_default) \<Longrightarrow> snd (PopBacks as v) = Vector_default"
proof (induction as arbitrary: v)
  case Nil
  then show ?case by simp
next
  case (Cons a as)
  let ?v1 = "snd (PopBack a v)"
  from Cons.prems(1) have r: "fst (PopBack a v)" and rs: "list_all (\<lambda>r. r) (fst (PopBacks as ?v1))"
    by (simp_all split: prod.splits)
  have "unat (size_m ?v1) \<le> length as \<and> (as = [] \<longrightarrow> ?v1 = Vector_default)"
    using PopBack_step [OF r] Cons.prems(2)
  proof (elim disjE conjE)
    assume "snd (PopBack a v) = Vector_default"
    then show ?thesis by (simp add: Vector_default_def)
  next
    assume big: "\<not> size_m v \<le> 1" and dec: "unat (size_m ?v1) = unat (size_m v) - 1"
    have "2 \<le> unat (size_m v)"
      using big by (simp add: word_le_nat_alt)
    with dec Cons.prems(2) show ?thesis
      by auto
  qed
  then have "snd (PopBacks as ?v1) = Vector_default"
    using rs Cons.IH by blast
  then show ?case
    by (cases "PopBack a v"; cases "PopBacks as (snd (PopBack a v))") simp
qed

text \<open>
  Claim C7, as stated, fails: after two successful \<open>PushBack\<close> calls on the empty
  container, a \<open>PopBack\<close> whose reallocation fails removes nothing, and the second
  \<open>PopBack\<close> leaves one element.
\<close>

theorem round_trip_broken_by_failed_pop:
  "PushBacks [(Some fill_zero, 1), (Some fill_zero, 2)] (Vector_default :: (int, 16) Vector) =
     Some \<lparr>data_m = Block [1, 2], size_m = 2\<rparr> \<and>
   PopBacks [None, Some fill_zero] \<lparr>data_m = Block [1::int, 2], size_m = 2::16 word\<rparr> =
     ([False, True], \<lparr>data_m = Block [1], size_m = 1\<rparr>)"
  by (simp add: PushBack_def PopBack_def Resize_Some Vector_default_def word_le_nat_alt
      fill_zero_def upt_rec)

text \<open>
  Claim C7, amended. Starting from the empty container, \<open>n\<close> calls of \<open>PushBack\<close>, with
  \<open>n\<close> in the range of \<open>size_t\<close> and whether they succeed or not, followed by \<open>n\<close>
  calls of \<open>PopBack\<close> that all return true, end in the empty container.
\<close>

theorem push_pop_round_trip:
  fixes cs :: "('a alloc \<times> 'a) list"
  assumes "length as = length cs" and "length cs < 2 ^ LENGTH('w::len)"
  shows "\<exists>v :: ('a, 'w) Vector. PushBacks cs Vector_default = Some v \<and>
    (list_all (\<lambda>r. r) (fst (PopBacks as v)) \<longrightarrow> snd (PopBacks as v) = Vector_default)"
proof -
  have "unat (size_m (Vector_default :: ('a, 'w) Vector)) + length cs < 2 ^ LENGTH('w)"
    using assms(2) by (simp add: Vector_default_def)
  then obtain v :: "('a, 'w) Vector" where p: "PushBacks cs Vector_default = Some v"
    and le: "unat (size_m v) \<le> unat (size_m (Vector_default :: ('a, 'w) Vector)) + length cs"
    using PushBacks_total by blast
  have emp: "as = [] \<longrightarrow> v = Vector_default"
    using assms(1) p by auto
  have bound: "unat (size_m v) \<le> length as"
    using le assms(1) by (simp add: Vector_default_def)
  have "snd (PopBacks as v) = Vector_default" if "list_all (\<lambda>r. r) (fst (PopBacks as v))"
    using that bound emp by (rule PopBacks_empty)
  with p show ?thesis
    by blast
qed

theorem push_pop_round_trip_witness:
  "length [Some fill_zero, None, Some fill_zero] =
     length [(Some fill_zero, 1::int), (None, 2), (Some fill_zero, 3)] \<and>
   length [(Some fill_zero, 1::int), (None, 2), (Some fill_zero, 3)] < 2 ^ LENGTH(16) \<and>
   PushBacks [(Some fill_zero, 1), (None, 2), (Some fill_zero, 3)] (Vector_default :: (int, 16) Vector) =
     Some \<lparr>data_m = Block [1, 3], size_m = 2\<rparr> \<and>
   list_all (\<lambda>r. r) (fst (PopBacks [Some fill_zero, None, Some fill_zero]
     \<lparr>data_m = Block [1::int, 3], size_m = 2::16 word\<rparr>)) \<and>
   snd (PopBacks [Some fill_zero, None, Some fill_zero]
     \<lparr>data_m = Block [1::int, 3], size_m = 2::16 word\<rparr>) = Vector_default"
proof -
  let ?cs = "[(Some fill_zero, 1::int), (None, 2), (Some fill_zero, 3)]"
  let ?as = "[Some fill_zero, None, Some fill_zero]"
  let ?v = "\<lparr>data_m = Block [1::int, 3], size_m = 2::16 word\<rparr>"
  have len: "length ?as = length ?cs" and small: "length ?cs < 2 ^ LENGTH(16)"
    by simp_all
  have pushes: "PushBacks ?cs (Vector_default :: (int, 16) Vector) = Some ?v"
    by (simp add: PushBack_def Resize_Some Vector_default_def fill_zero_def upt_rec)
  have flags: "list_all (\<lambda>r. r) (fst (PopBacks ?as ?v))"
    by (simp add: PopBack_def Resize_Some Clear_eq word_le_nat_alt)
  from len small
  have "\<exists>v :: (int, 16) Vector. PushBacks ?cs Vector_default = Some v \<and>
      (list_all (\<lambda>r. r) (fst (PopBacks ?as v)) \<longrightarrow> snd (PopBacks ?as v) = Vector_default)"
    by (rule push_pop_round_trip)
  with pushes flags have "snd (PopBacks ?as ?v) = Vector_default"
    by auto
  with len small pushes flags show ?thesis
    by blast
qed

subsection \<open>The representation invariant\<close>

text \<open>
  The invariant holds of a default-constructed container and is kept by the operations,
  so the containers the theorems above speak about are the ones a program can build.
\<close>

lemma valid_Vector_default: "valid Vector_default"
  by (simp add: valid_def Vector_default_def)

lemma valid_Clear: "valid (Clear v)"
  by (simp add: valid_def Clear_eq)

lemma valid_Resize: "valid v \<Longrightarrow> valid (snd (Resize a n v))"
  by (cases a) (simp_all add: valid_def Resize_Some)

lemma valid_PopBack: "valid v \<Longrightarrow> valid (snd (PopBack a v))"
  by (simp add: PopBack_def valid_Clear valid_Resize)

lemma valid_PushBack:
  assumes "valid v" and "PushBack a x v = Some (r, v')"
  shows "valid v'"
proof (cases a)
  case None
  with assms show ?thesis
    by (simp add: PushBack_None)
next
  case (Some fill)
  with assms(2) show ?thesis
    by (auto simp: PushBack_def Resize_Some valid_def split: option.splits if_splits)
qed

lemma valid_AddValues:
  fixes s :: "('a, 'w::len) objects"
  assumes "valid (s this)" and "valid (s source)"
    and "unat (size_m (s this)) + unat (size_m (s source)) < 2 ^ LENGTH('w)"
    and "AddValues a this source s = Some (r, s')"
  shows "valid (s' this)"
proof (cases a)
  case None
  with assms(1,4) show ?thesis
    by (simp add: AddValues_None)
next
  case (Some fill)
  have "unat (size_m (s this) + size_m (s source)) =
      unat (size_m (s this)) + unat (size_m (s source))"
    using assms(3) by (rule unat_add_lem [THEN iffD1])
  with Some assms show ?thesis
    by (auto simp: AddValues_Some valid_def)
qed

subsection \<open>Failure\<close>

text \<open>
  Claim C4, as stated, fails for the assignment: it clears the destination before it
  copies, so when the allocation fails the destination, which held two elements, is
  empty. It has neither received the values of the source nor kept its own.
\<close>

theorem assignment_failure_clears:
  "op_assign None 0 1 (objects_init(0 := \<lparr>data_m = Block [1::int, 2], size_m = 2::16 word\<rparr>,
                                    1 := \<lparr>data_m = Block [3], size_m = 1\<rparr>)) =
     Some (objects_init(0 := \<lparr>data_m = nullptr, size_m = 0\<rparr>,
                        1 := \<lparr>data_m = Block [3], size_m = 1\<rparr>)) \<and>
   \<lparr>data_m = nullptr, size_m = 0::16 word\<rparr> \<noteq> \<lparr>data_m = Block [1::int, 2], size_m = 2\<rparr> \<and>
   \<lparr>data_m = nullptr, size_m = 0::16 word\<rparr> \<noteq> \<lparr>data_m = Block [3::int], size_m = 1\<rparr>"
  by (simp add: op_assign_def Copy_def Clear_eq fun_upd_twist)

text \<open>
  Claim C4, amended. Every operation that reports failure, that is \<open>Resize\<close>,
  \<open>PushBack\<close>, \<open>PopBack\<close>, \<open>Copy\<close> and \<open>AddValues\<close> returning false, leaves the
  container as it was before the call, and so does an append whose allocation fails. A
  constructor whose allocation fails leaves the new container empty. The assignment, which
  returns nothing, leaves the destination empty when its allocation fails.
\<close>

theorem failure_leaves_unchanged:
  "(Resize a n v = (False, v') \<longrightarrow> v' = v) \<and>
   (PushBack a x v = Some (False, v') \<longrightarrow> v' = v) \<and>
   (PopBack a v = (False, v') \<longrightarrow> v' = v) \<and>
   (Copy a this source s = Some (False, s') \<longrightarrow> s' = s) \<and>
   (AddValues a this source s = Some (False, s') \<longrightarrow> s' = s) \<and>
   op_add_assign None this source s = Some s \<and>
   Vector_sized None n = Vector_default \<and>
   Vector_copy None this source s = Some (s(this := Vector_default)) \<and>
   op_assign None this source s = Some (s(this := \<lparr>data_m = nullptr, size_m = 0\<rparr>))"
proof (cases a)
  case None
  then show ?thesis
    by (auto simp: PushBack_None PopBack_def Copy_None AddValues_None op_add_assign_def
        Vector_sized_def Vector_copy_def op_assign_def Clear_eq)
next
  case (Some fill)
  then show ?thesis
    by (auto simp: Resize_Some PushBack_def PopBack_def Copy_def Copy_None AddValues_def
        AddValues_None op_add_assign_def Vector_sized_def Vector_copy_def op_assign_def Clear_eq
        Let_def split: option.splits)
qed

theorem failure_leaves_unchanged_witness:
  "Resize None 3 \<lparr>data_m = Block [1::int, 2], size_m = 2::16 word\<rparr> =
     (False, \<lparr>data_m = Block [1, 2], size_m = 2\<rparr>) \<and>
   PushBack None 7 \<lparr>data_m = Block [1::int, 2], size_m = 2::16 word\<rparr> =
     Some (False, \<lparr>data_m = Block [1, 2], size_m = 2\<rparr>) \<and>
   PopBack None \<lparr>data_m = Block [1::int, 2], size_m = 2::16 word\<rparr> =
     (False, \<lparr>data_m = Block [1, 2], size_m = 2\<rparr>) \<and>
   Copy None 0 1 (objects_init(0 := \<lparr>data_m = Block [1::int, 2], size_m = 2::16 word\<rparr>,
                               1 := \<lparr>data_m = Block [3], size_m = 1\<rparr>)) =
     Some (False, objects_init(0 := \<lparr>data_m = Block [1, 2], size_m = 2\<rparr>,
                               1 := \<lparr>data_m = Block [3], size_m = 1\<rparr>)) \<and>
   AddValues None 0 1 (objects_init(0 := \<lparr>data_m = Block [1::int, 2], size_m = 2::16 word\<rparr>,
                                    1 := \<lparr>data_m = Block [3], size_m = 1\<rparr>)) =
     Some (False, objects_init(0 := \<lparr>data_m = Block [1, 2], size_m = 2\<rparr>,
                               1 := \<lparr>data_m = Block [3], size_m = 1\<rparr>))"
proof -
  let ?v = "\<lparr>data_m = Block [1::int, 2], size_m = 2::16 word\<rparr>"
  let ?s = "objects_init(0 := ?v, 1 := \<lparr>data_m = Block [3::int], size_m = 1::16 word\<rparr>)"
  obtain v1 where r: "Resize None 3 ?v = (False, v1)"
    by (simp add: Resize_def)
  obtain v2 where p: "PushBack None 7 ?v = Some (False, v2)"
    by (simp add: PushBack_def)
  obtain v3 where q: "PopBack None ?v = (False, v3)"
    by (simp add: PopBack_def word_le_nat_alt)
  obtain s4 where c: "Copy None 0 1 ?s = Some (False, s4)"
    by (simp add: Copy_def)
  obtain s5 where d: "AddValues None 0 1 ?s = Some (False, s5)"
    by (simp add: AddValues_def)
  from r failure_leaves_unchanged [where a = None and n = 3 and v = ?v and v' = v1]
  have "v1 = ?v"
    by blast
  moreover from p failure_leaves_unchanged [where a = None and x = 7 and v = ?v and v' = v2]
  have "v2 = ?v"
    by blast
  moreover from q failure_leaves_unchanged [where a = None and v = ?v and v' = v3]
  have "v3 = ?v"
    by blast
  moreover from c failure_leaves_unchanged [where a = None and this = 0 and source = 1 and s = ?s and s' = s4]
  have "s4 = ?s"
    by blast
  moreover from d failure_leaves_unchanged [where a = None and this = 0 and source = 1 and s = ?s and s' = s5]
  have "s5 = ?s"
    by blast
  ultimately show ?thesis
    using r p q c d by simp
qed

section \<open>Properties of the regression model\<close>

subsection \<open>Training\<close>

lemma epoch_train_data [simp]:
  "train_in (epoch m) = train_in m" "train_out (epoch m) = train_out m"
  by (simp_all add: epoch_def Let_def)

lemma Train_train_data [simp]:
  "train_in (Train e m) = train_in m" "train_out (Train e m) = train_out m"
  by (induction e arbitrary: m) simp_all

lemma sum_list_errors:
  assumes "length ys = length xs"
  shows "sum_list (map2 (\<lambda>p y. p - y) (map f xs) ys) = (\<Sum>i < length xs. f (xs ! i) - ys ! i)"
proof -
  have "sum_list (map2 (\<lambda>p y. p - y) (map f xs) ys) =
      (\<Sum>i = 0..<length xs. map2 (\<lambda>p y. p - y) (map f xs) ys ! i)"
    using assms by (simp add: sum_list_sum_nth)
  also have "\<dots> = (\<Sum>i = 0..<length xs. f (xs ! i) - ys ! i)"
    using assms by (intro sum.cong) simp_all
  finally show ?thesis
    by (simp add: lessThan_atLeast0)
qed

lemma sum_list_weighted_errors:
  assumes "length ys = length xs"
  shows "sum_list (map2 (\<lambda>e x. e * x) (map2 (\<lambda>p y. p - y) (map f xs) ys) xs) =
    (\<Sum>i < length xs. (f (xs ! i) - ys ! i) * xs ! i)"
proof -
  have "sum_list (map2 (\<lambda>e x. e * x) (map2 (\<lambda>p y. p - y) (map f xs) ys) xs) =
      (\<Sum>i = 0..<length xs. map2 (\<lambda>e x. e * x) (map2 (\<lambda>p y. p - y) (map f xs) ys) xs ! i)"
    using assms by (simp add: sum_list_sum_nth)
  also have "\<dots> = (\<Sum>i = 0..<length xs. (f (xs ! i) - ys ! i) * xs ! i)"
    using assms by (intro sum.cong) simp_all
  finally show ?thesis
    by (simp add: lessThan_atLeast0)
qed

lemma epoch_gradient_step:
  assumes "train_in m = xs" and "train_out m = ys" and "length ys = length xs" and "0 < length xs"
  shows "epoch m = m\<lparr>bias := fst (gradient_step xs ys (bias m, weight m)),
                      weight := snd (gradient_step xs ys (bias m, weight m))\<rparr>"
proof -
  have ne: "train_in m \<noteq> []"
    using assms(1,4) by auto
  show ?thesis
    using ne assms(1,2)
    by (simp add: epoch_def Let_def mean_def assms(3) gradient_step_def learning_rate_def
        sum_list_errors [OF assms(3)] sum_list_weighted_errors [OF assms(3)] Predict_def
        mult.commute)
qed

text \<open>
  Claim C1. For a model loaded with \<open>n > 0\<close> training pairs, \<open>Train(e)\<close> is \<open>e\<close>
  iterations of the gradient step: the new bias is the bias minus 0.01 times the mean over
  all \<open>i\<close> of \<open>bias + weight * x\<^sub>i - y\<^sub>i\<close>, the new weight is the weight minus 0.01 times
  the mean over all \<open>i\<close> of \<open>(bias + weight * x\<^sub>i - y\<^sub>i) * x\<^sub>i\<close>, both means taken with
  the parameters the iteration started from. The training data stay as they are.
\<close>

theorem Train_is_batch_gradient_descent:
  assumes "train_in m = xs" and "train_out m = ys" and "length ys = length xs" and "0 < length xs"
  shows "Train e m = m\<lparr>bias := fst ((gradient_step xs ys ^^ e) (bias m, weight m)),
                        weight := snd ((gradient_step xs ys ^^ e) (bias m, weight m))\<rparr>"
  using assms(1,2)
proof (induction e arbitrary: m)
  case 0
  then show ?case by simp
next
  case (Suc e)
  let ?g = "gradient_step xs ys"
  have ep: "epoch m = m\<lparr>bias := fst (?g (bias m, weight m)), weight := snd (?g (bias m, weight m))\<rparr>"
    using Suc.prems assms(3,4) by (rule epoch_gradient_step)
  have "Train (Suc e) m = Train e (epoch m)"
    by simp
  also have "\<dots> = (epoch m)\<lparr>bias := fst ((?g ^^ e) (bias (epoch m), weight (epoch m))),
      weight := snd ((?g ^^ e) (bias (epoch m), weight (epoch m)))\<rparr>"
    using Suc.prems by (intro Suc.IH) simp_all
  also have "(bias (epoch m), weight (epoch m)) = ?g (bias m, weight m)"
    by (subst (1 2) ep) simp
  also have "(?g ^^ e) (?g (bias m, weight m)) = (?g ^^ Suc e) (bias m, weight m)"
    by (simp add: funpow_swap1)
  finally show ?case
    by (subst (asm) ep) simp
qed

theorem Train_is_batch_gradient_descent_witness:
  "train_in (LoadTrainingData test_inputs [2, 4, 6, 8, 10] LinReg_default) = [0, 1, 2, 3, 4] \<and>
   train_out (LoadTrainingData test_inputs [2, 4, 6, 8, 10] LinReg_default) = [2, 4, 6, 8, 10] \<and>
   length [2, 4, 6, 8, 10 :: real] = length [0, 1, 2, 3, 4 :: real] \<and>
   0 < length [0, 1, 2, 3, 4 :: real] \<and>
   Train 1 (LoadTrainingData test_inputs [2, 4, 6, 8, 10] LinReg_default) =
     \<lparr>train_in = [0, 1, 2, 3, 4], train_out = [2, 4, 6, 8, 10], bias = 6 / 100, weight = 16 / 100\<rparr>"
proof -
  let ?m = "LoadTrainingData test_inputs [2, 4, 6, 8, 10] LinReg_default"
  have a: "train_in ?m = [0, 1, 2, 3, 4]" and b: "train_out ?m = [2, 4, 6, 8, 10]"
    by (simp_all add: LoadTrainingData_def test_inputs_def LinReg_default_def)
  have c: "length [2, 4, 6, 8, 10 :: real] = length [0, 1, 2, 3, 4 :: real]"
    and d: "0 < length [0, 1, 2, 3, 4 :: real]"
    by simp_all
  have five: "{..<5::nat} = {0, 1, 2, 3, 4}"
    by auto
  have "gradient_step [0, 1, 2, 3, 4] [2, 4, 6, 8, 10] (0, 0) = (6 / 100, 16 / 100)"
    by (simp add: gradient_step_def five)
  with Train_is_batch_gradient_descent [OF a b c d, of 1]
  have "Train 1 ?m = ?m\<lparr>bias := 6 / 100, weight := 16 / 100\<rparr>"
    by (simp add: LoadTrainingData_def LinReg_default_def)
  with a b c d show ?thesis
    by (simp add: LoadTrainingData_def test_inputs_def LinReg_default_def)
qed

subsection \<open>The three training scenarios\<close>

text \<open>
  With the inputs of the tests and outputs on the line \<open>b0 + w0 * x\<close>, one epoch maps the
  distances of bias and weight from \<open>b0\<close> and \<open>w0\<close> linearly.
\<close>

lemma epoch_on_line:
  assumes "train_in m = test_inputs"
    and "train_out m = [b0, b0 + w0, b0 + 2 * w0, b0 + 3 * w0, b0 + 4 * w0]"
  shows "bias (epoch m) - b0 = (99 * (bias m - b0) - 2 * (weight m - w0)) / 100"
    and "weight (epoch m) - w0 = (94 * (weight m - w0) - 2 * (bias m - b0)) / 100"
  using assms
  by (simp_all add: epoch_def Let_def mean_def Predict_def learning_rate_def test_inputs_def
      field_simps)

lemma of_int_div_100_le: "real_of_int (a div 100) \<le> real_of_int a / 100"
proof -
  have "100 * (a div 100) \<le> a"
    by simp
  then have "real_of_int (100 * (a div 100)) \<le> real_of_int a"
    by (simp only: of_int_le_iff)
  then show ?thesis
    by simp
qed

lemma Train_enclosed:
  assumes "train_in m = test_inputs"
    and "train_out m = [b0, b0 + w0, b0 + 2 * w0, b0 + 3 * w0, b0 + 4 * w0]"
    and "real_of_int P \<le> c * (bias m - b0) * unit_scale"
    and "c * (weight m - w0) * unit_scale \<le> real_of_int Q"
  shows "real_of_int (fst (enclose k (P, Q))) \<le> c * (bias (Train k m) - b0) * unit_scale \<and>
         c * (weight (Train k m) - w0) * unit_scale \<le> real_of_int (snd (enclose k (P, Q)))"
  using assms
proof (induction k arbitrary: m P Q)
  case 0
  then show ?case by simp
next
  case (Suc k)
  let ?p = "c * (bias m - b0) * unit_scale" and ?q = "c * (weight m - w0) * unit_scale"
  let ?P = "(99 * P - 2 * Q) div 100" and ?Q = "- ((2 * P - 94 * Q) div 100)"
  have eb: "c * (bias (epoch m) - b0) * unit_scale = (99 * ?p - 2 * ?q) / 100"
    by (simp add: epoch_on_line [OF Suc.prems(1,2)] field_simps)
  have ew: "c * (weight (epoch m) - w0) * unit_scale = (94 * ?q - 2 * ?p) / 100"
    by (simp add: epoch_on_line [OF Suc.prems(1,2)] field_simps)
  have "real_of_int ?P \<le> real_of_int (99 * P - 2 * Q) / 100"
    by (rule of_int_div_100_le)
  also have "\<dots> \<le> (99 * ?p - 2 * ?q) / 100"
    using Suc.prems(3,4) by simp
  finally have lo: "real_of_int ?P \<le> c * (bias (epoch m) - b0) * unit_scale"
    by (simp only: eb)
  have "real_of_int ((2 * P - 94 * Q) div 100) \<le> real_of_int (2 * P - 94 * Q) / 100"
    by (rule of_int_div_100_le)
  also have "\<dots> \<le> (2 * ?p - 94 * ?q) / 100"
    using Suc.prems(3,4) by simp
  finally have "(94 * ?q - 2 * ?p) / 100 \<le> real_of_int ?Q"
    by simp
  then have hi: "c * (weight (epoch m) - w0) * unit_scale \<le> real_of_int ?Q"
    by (simp only: ew)
  have "real_of_int (fst (enclose k (?P, ?Q))) \<le> c * (bias (Train k (epoch m)) - b0) * unit_scale \<and>
      c * (weight (Train k (epoch m)) - w0) * unit_scale \<le> real_of_int (snd (enclose k (?P, ?Q)))"
    using Suc.prems(1,2) lo hi by (intro Suc.IH) simp_all
  then show ?case
    by simp
qed

lemma enclose_scenario_1: "enclose 1000 (2000000000, 2000000000) = (58208252, -20418346)"
  by code_simp

lemma enclose_scenario_2: "enclose 1000 (5000000000, -3000000000) = (271323893, -95175278)"
  by code_simp

lemma enclose_scenario_3: "enclose 1000 (50000000000, -100000000000) = (3814016702, -1337884815)"
  by code_simp

lemma trained_bias_bound:
  assumes "outputs = [b0, b0 + w0, b0 + 2 * w0, b0 + 3 * w0, b0 + 4 * w0]"
    and "real_of_int P \<le> c * (0 - b0) * unit_scale"
    and "c * (0 - w0) * unit_scale \<le> real_of_int Q"
  shows "real_of_int (fst (enclose 1000 (P, Q))) \<le> c * (Predict (trained outputs) 0 - b0) * unit_scale"
proof -
  let ?m = "LoadTrainingData test_inputs outputs LinReg_default"
  have "real_of_int (fst (enclose 1000 (P, Q))) \<le> c * (bias (Train 1000 ?m) - b0) * unit_scale \<and>
      c * (weight (Train 1000 ?m) - w0) * unit_scale \<le> real_of_int (snd (enclose 1000 (P, Q)))"
    using assms by (intro Train_enclosed) (simp_all add: LoadTrainingData_def LinReg_default_def)
  then show ?thesis
    by (simp add: trained_def Predict_def)
qed

text \<open>
  The algorithm of section 4.2 against the tolerance of the tests. The tests
  (lin_reg_test.cpp, lines 13-49) expect a prediction within 0.001 of the target line
  after 1000 epochs. Batch gradient descent with mean gradients and the rate 0.01, as
  modelled above from the specification, is further away at the input 0: by more than
  0.05 for the outputs \<open>2, 4, 6, 8, 10\<close>, by more than 0.25 for \<open>-5, -2, 1, 4, 7\<close> and
  by more than 3 for \<open>-50, 50, 150, 250, 350\<close>. This is a fact about the described
  algorithm only: the class \<open>LinReg\<close> is not among the sources, so it says nothing
  about what the \<open>Train\<close> of the repository computes.
\<close>

lemma described_training_misses_test_tolerance:
  "1 / 20 < \<bar>Predict (trained [2, 4, 6, 8, 10]) 0 - (2 * 0 + 2)\<bar> \<and>
   1 / 4 < \<bar>Predict (trained [-5, -2, 1, 4, 7]) 0 - (3 * 0 - 5)\<bar> \<and>
   3 < \<bar>Predict (trained [-50, 50, 150, 250, 350]) 0 - (100 * 0 - 50)\<bar>"
proof -
  have "real_of_int (fst (enclose 1000 (2000000000, 2000000000)))
      \<le> (- 1) * (Predict (trained [2, 4, 6, 8, 10]) 0 - 2) * unit_scale"
    by (rule trained_bias_bound [where ?w0.0 = 2]) (simp_all add: unit_scale_def)
  then have s1: "1 / 20 < \<bar>Predict (trained [2, 4, 6, 8, 10]) 0 - (2 * 0 + 2)\<bar>"
    by (simp add: enclose_scenario_1 unit_scale_def)
  have "real_of_int (fst (enclose 1000 (5000000000, -3000000000)))
      \<le> 1 * (Predict (trained [-5, -2, 1, 4, 7]) 0 - (-5)) * unit_scale"
    by (rule trained_bias_bound [where ?w0.0 = 3]) (simp_all add: unit_scale_def)
  then have s2: "1 / 4 < \<bar>Predict (trained [-5, -2, 1, 4, 7]) 0 - (3 * 0 - 5)\<bar>"
    by (simp add: enclose_scenario_2 unit_scale_def)
  have "real_of_int (fst (enclose 1000 (50000000000, -100000000000)))
      \<le> 1 * (Predict (trained [-50, 50, 150, 250, 350]) 0 - (-50)) * unit_scale"
    by (rule trained_bias_bound [where ?w0.0 = 100]) (simp_all add: unit_scale_def)
  then have s3: "3 < \<bar>Predict (trained [-50, 50, 150, 250, 350]) 0 - (100 * 0 - 50)\<bar>"
    by (simp add: enclose_scenario_3 unit_scale_def)
  from s1 s2 s3 show ?thesis
    by blast
qed

end
